theory Spec2Isabelle
  imports Complex_Main "HOL-Library.Word"
begin

section \<open>Python values reaching \<open>can_form_triangle\<close>\<close>

text \<open>
  The function under study is \<open>can_form_triangle(a, b, c)\<close> of
  \<open>TestTriangleFunction.py\<close>.  Python is dynamically typed, so the three arguments are
  arbitrary objects.  The model distinguishes the built-in types the function and its tests
  mention: \<open>int\<close> (unbounded), \<open>bool\<close> (a subclass of \<open>int\<close>), \<open>float\<close> (an IEEE 754
  binary64 number, kept as its 64-bit pattern), \<open>str\<close>, \<open>None\<close>, \<open>list\<close> and \<open>dict\<close>.
  Instances of user-defined subclasses of \<open>int\<close> or \<open>float\<close> that override the arithmetic
  or comparison operators are outside the model.
\<close>

type_synonym double = "64 word"

datatype pyval =
    PyInt int
  | PyBool bool
  | PyFloat double
  | PyStr string
  | PyNone
  | PyList "pyval list"
  | PyDict "(pyval \<times> pyval) list"

text \<open>The exceptions that can leave the function, each with its message.\<close>

datatype py_error = TypeError string | ValueError string | OverflowError string

text \<open>
  A numeric operand after the \<open>isinstance(side, (int, float))\<close> test: an integer (a
  \<open>bool\<close> takes part in arithmetic and comparison as the integer 0 or 1) or a float.
\<close>

datatype num = NInt int | NFloat double

fun as_num :: "pyval \<Rightarrow> num option" where
  "as_num (PyInt i) = Some (NInt i)"
| "as_num (PyBool b) = Some (NInt (if b then 1 else 0))"
| "as_num (PyFloat w) = Some (NFloat w)"
| "as_num _ = None"

definition isinstance_int_float :: "pyval \<Rightarrow> bool" where
  "isinstance_int_float side = (as_num side \<noteq> None)"

section \<open>IEEE 754 binary64 numbers\<close>

text \<open>
  Bit 63 of a double is the sign; the low 63 bits are the biased exponent (11 bits) followed
  by the fraction (52 bits), read together as the number \<open>magnitude\<close>.  Magnitude
  \<open>2047 * 2^52\<close> is infinity, larger magnitudes are NaNs.  Every finite double is an
  integer multiple of \<open>2^-1074\<close>, the smallest positive double, and so is every Python
  integer; exact values are therefore kept as integers counting units of \<open>2^-1074\<close>.
\<close>

definition sign_bit :: "double \<Rightarrow> bool" where
  "sign_bit w = (2 ^ 63 \<le> unat w)"

definition magnitude :: "double \<Rightarrow> nat" where
  "magnitude w = unat w mod 2 ^ 63"

definition INF_MAG :: nat where
  "INF_MAG = 2047 * 2 ^ 52"

definition finite_units :: "nat \<Rightarrow> nat" where
  "finite_units m =
     (let e = m div 2 ^ 52; f = m mod 2 ^ 52
      in if e = 0 then f else (2 ^ 52 + f) * 2 ^ (e - 1))"

datatype extended = NaN | NegInf | Finite int | PosInf

definition double_value :: "double \<Rightarrow> extended" where
  "double_value w =
     (let m = magnitude w
      in if INF_MAG < m then NaN
         else if m = INF_MAG then (if sign_bit w then NegInf else PosInf)
         else Finite (if sign_bit w then - int (finite_units m) else int (finite_units m)))"

definition make_double :: "bool \<Rightarrow> nat \<Rightarrow> double" where
  "make_double negative m = (if negative then 2 ^ 63 else 0) + of_nat m"

definition quiet_nan :: double where
  "quiet_nan = make_double False (INF_MAG + 2 ^ 51)"

subsection \<open>Rounding to nearest, ties to even\<close>

fun bit_length :: "nat \<Rightarrow> nat" where
  "bit_length n = (if n = 0 then 0 else Suc (bit_length (n div 2)))"

declare bit_length.simps [simp del]

text \<open>\<open>round_half_even k s\<close> is \<open>k / 2^s\<close> rounded to the nearest integer, ties to even.\<close>

definition round_half_even :: "nat \<Rightarrow> nat \<Rightarrow> nat" where
  "round_half_even k s =
     (let q = k div 2 ^ s; r = k mod 2 ^ s
      in if 2 ^ s < 2 * r \<or> (2 * r = 2 ^ s \<and> odd q) then q + 1 else q)"

text \<open>
  \<open>round_mag t k\<close> is the magnitude of the double nearest to \<open>k * 2^-(1074 + t)\<close>: the
  value keeps 53 significant bits, or fewer in the subnormal range.  A carry out of the
  significand moves into the exponent field, as in the hardware encoding.
\<close>

definition round_mag :: "nat \<Rightarrow> nat \<Rightarrow> nat" where
  "round_mag t k =
     (let s = max (bit_length k - 53) t
      in (s - t) * 2 ^ 52 + round_half_even k s)"

text \<open>
  IEEE 754, round to nearest: a result of magnitude at least \<open>2^1024 - 2^970\<close> overflows.
  In units of \<open>2^-1074\<close> that bound is \<open>2^2098 - 2^2044\<close>.
\<close>

definition OVERFLOW_UNITS :: nat where
  "OVERFLOW_UNITS = 2 ^ 2098 - 2 ^ 2044"

definition round_finite :: "nat \<Rightarrow> nat \<Rightarrow> nat option" where
  "round_finite t k = (if OVERFLOW_UNITS * 2 ^ t \<le> k then None else Some (round_mag t k))"

subsection \<open>Conversion, addition, multiplication\<close>

text \<open>
  \<open>int + float\<close> converts the integer first; CPython raises \<open>OverflowError\<close> when the
  integer rounds out of the double range.
\<close>

definition int_to_double :: "int \<Rightarrow> py_error + double" where
  "int_to_double i =
     (case round_finite 0 (nat \<bar>i\<bar> * 2 ^ 1074) of
        None \<Rightarrow> Inl (OverflowError ''int too large to convert to float'')
      | Some m \<Rightarrow> Inr (make_double (i < 0) m))"

text \<open>\<open>too_large i\<close>: the integer \<open>i\<close> rounds out of the double range.\<close>

definition too_large :: "int \<Rightarrow> bool" where
  "too_large i = (int OVERFLOW_UNITS \<le> \<bar>i\<bar> * 2 ^ 1074)"

text \<open>Float addition and multiplication never raise: an overflow gives an infinity.\<close>

definition round_signed :: "bool \<Rightarrow> nat \<Rightarrow> nat \<Rightarrow> double" where
  "round_signed negative t k =
     (case round_finite t k of
        None \<Rightarrow> make_double negative INF_MAG
      | Some m \<Rightarrow> make_double negative m)"

definition fadd :: "double \<Rightarrow> double \<Rightarrow> double" where
  "fadd x y =
     (case (double_value x, double_value y) of
        (NaN, _) \<Rightarrow> quiet_nan
      | (_, NaN) \<Rightarrow> quiet_nan
      | (PosInf, NegInf) \<Rightarrow> quiet_nan
      | (NegInf, PosInf) \<Rightarrow> quiet_nan
      | (PosInf, _) \<Rightarrow> make_double False INF_MAG
      | (_, PosInf) \<Rightarrow> make_double False INF_MAG
      | (NegInf, _) \<Rightarrow> make_double True INF_MAG
      | (_, NegInf) \<Rightarrow> make_double True INF_MAG
      | (Finite u, Finite v) \<Rightarrow>
          (if u + v = 0 then make_double (sign_bit x \<and> sign_bit y) 0
           else round_signed (u + v < 0) 0 (nat \<bar>u + v\<bar>)))"

text \<open>
  The exact product of two finite doubles is a multiple of \<open>2^-2148\<close>, hence the 1074
  extra fraction bits handed to the rounding.
\<close>

definition fmul :: "double \<Rightarrow> double \<Rightarrow> double" where
  "fmul x y =
     (case (double_value x, double_value y) of
        (NaN, _) \<Rightarrow> quiet_nan
      | (_, NaN) \<Rightarrow> quiet_nan
      | (Finite u, Finite v) \<Rightarrow>
          round_signed (sign_bit x \<noteq> sign_bit y) 1074 (nat (\<bar>u\<bar> * \<bar>v\<bar>))
      | (Finite u, _) \<Rightarrow>
          (if u = 0 then quiet_nan else make_double (sign_bit x \<noteq> sign_bit y) INF_MAG)
      | (_, Finite v) \<Rightarrow>
          (if v = 0 then quiet_nan else make_double (sign_bit x \<noteq> sign_bit y) INF_MAG)
      | (_, _) \<Rightarrow> make_double (sign_bit x \<noteq> sign_bit y) INF_MAG)"

section \<open>Python's numeric operators\<close>

text \<open>
  Comparisons between \<open>int\<close> and \<open>float\<close> are exact in CPython (no conversion, no
  exception); a comparison with a NaN is false.
\<close>

fun ext_gt :: "extended \<Rightarrow> extended \<Rightarrow> bool" where
  "ext_gt NaN _ = False"
| "ext_gt _ NaN = False"
| "ext_gt PosInf PosInf = False"
| "ext_gt PosInf _ = True"
| "ext_gt NegInf _ = False"
| "ext_gt (Finite u) NegInf = True"
| "ext_gt (Finite u) (Finite v) = (v < u)"
| "ext_gt (Finite u) PosInf = False"

fun ext_eq :: "extended \<Rightarrow> extended \<Rightarrow> bool" where
  "ext_eq NaN _ = False"
| "ext_eq _ NaN = False"
| "ext_eq (Finite u) (Finite v) = (u = v)"
| "ext_eq PosInf PosInf = True"
| "ext_eq NegInf NegInf = True"
| "ext_eq _ _ = False"

fun num_value :: "num \<Rightarrow> extended" where
  "num_value (NInt i) = Finite (i * 2 ^ 1074)"
| "num_value (NFloat w) = double_value w"

definition num_gt :: "num \<Rightarrow> num \<Rightarrow> bool" where
  "num_gt x y = ext_gt (num_value x) (num_value y)"

definition num_lt :: "num \<Rightarrow> num \<Rightarrow> bool" where
  "num_lt x y = ext_gt (num_value y) (num_value x)"

definition num_eq :: "num \<Rightarrow> num \<Rightarrow> bool" where
  "num_eq x y = ext_eq (num_value x) (num_value y)"

definition num_le :: "num \<Rightarrow> num \<Rightarrow> bool" where
  "num_le x y = (num_lt x y \<or> num_eq x y)"

fun num_add :: "num \<Rightarrow> num \<Rightarrow> py_error + num" where
  "num_add (NInt i) (NInt j) = Inr (NInt (i + j))"
| "num_add (NInt i) (NFloat w) =
     (case int_to_double i of Inl e \<Rightarrow> Inl e | Inr v \<Rightarrow> Inr (NFloat (fadd v w)))"
| "num_add (NFloat v) (NInt j) =
     (case int_to_double j of Inl e \<Rightarrow> Inl e | Inr w \<Rightarrow> Inr (NFloat (fadd v w)))"
| "num_add (NFloat v) (NFloat w) = Inr (NFloat (fadd v w))"

fun num_mul :: "num \<Rightarrow> num \<Rightarrow> py_error + num" where
  "num_mul (NInt i) (NInt j) = Inr (NInt (i * j))"
| "num_mul (NInt i) (NFloat w) =
     (case int_to_double i of Inl e \<Rightarrow> Inl e | Inr v \<Rightarrow> Inr (NFloat (fmul v w)))"
| "num_mul (NFloat v) (NInt j) =
     (case int_to_double j of Inl e \<Rightarrow> Inl e | Inr w \<Rightarrow> Inr (NFloat (fmul v w)))"
| "num_mul (NFloat v) (NFloat w) = Inr (NFloat (fmul v w))"

section \<open>The function\<close>

text \<open>
  \<^verbatim>\<open>
  def can_form_triangle(a, b, c):
      if not all(isinstance(side, (int, float)) for side in [a, b, c]):
          raise TypeError("All sides must be numeric (int or float)")
      if not all(side > 0 for side in [a, b, c]):
          raise ValueError("All sides must be positive numbers")
      return (a + b > c) and (a + c > b) and (b + c > a)
  \<close>
  An outcome is the raised exception (\<open>Inl\<close>) or the returned boolean (\<open>Inr\<close>).
  \<open>sum_gt x y z\<close> is the conjunct \<open>x + y > z\<close>; \<open>py_and\<close> is the short-circuit
  \<open>and\<close>, whose right operand is not looked at unless the left one is true.
\<close>

definition sum_gt :: "num \<Rightarrow> num \<Rightarrow> num \<Rightarrow> py_error + bool" where
  "sum_gt x y z = (case num_add x y of Inl e \<Rightarrow> Inl e | Inr s \<Rightarrow> Inr (num_gt s z))"

definition py_and :: "py_error + bool \<Rightarrow> py_error + bool \<Rightarrow> py_error + bool" where
  "py_and p q = (case p of Inl e \<Rightarrow> Inl e | Inr l \<Rightarrow> if l then q else Inr False)"

definition all_positive :: "num \<Rightarrow> num \<Rightarrow> num \<Rightarrow> bool" where
  "all_positive x y z = list_all (\<lambda>side. num_gt side (NInt 0)) [x, y, z]"

definition triangle_inequality :: "num \<Rightarrow> num \<Rightarrow> num \<Rightarrow> py_error + bool" where
  "triangle_inequality x y z = py_and (py_and (sum_gt x y z) (sum_gt x z y)) (sum_gt y z x)"

definition can_form_triangle :: "pyval \<Rightarrow> pyval \<Rightarrow> pyval \<Rightarrow> py_error + bool" where
  "can_form_triangle a b c =
     (if \<not> list_all isinstance_int_float [a, b, c]
      then Inl (TypeError ''All sides must be numeric (int or float)'')
      else case (as_num a, as_num b, as_num c) of
          (Some x, Some y, Some z) \<Rightarrow>
            if \<not> all_positive x y z
            then Inl (ValueError ''All sides must be positive numbers'')
            else triangle_inequality x y z
        | _ \<Rightarrow> Inl (TypeError ''All sides must be numeric (int or float)''))"

section \<open>Notions used to state the properties\<close>

text \<open>
  Positivity of an argument as the function tests it (\<open>side > 0\<close>), and its opposite
  as the specification words it (\<open>side <= 0\<close>: zero or negative).  A NaN is neither.
\<close>

definition strictly_positive :: "pyval \<Rightarrow> bool" where
  "strictly_positive v = (case as_num v of Some x \<Rightarrow> num_gt x (NInt 0) | None \<Rightarrow> False)"

definition zero_or_negative :: "pyval \<Rightarrow> bool" where
  "zero_or_negative v = (case as_num v of Some x \<Rightarrow> num_le x (NInt 0) | None \<Rightarrow> False)"

text \<open>
  The exact length of a side, as a rational number: an integer is its own length, a
  finite float is the number its bit pattern denotes; an infinity or a NaN has none.
  (\<open>num_value\<close> counts units of \<open>2^-1074\<close>.)  A triple is flat when one side's exact
  length is the exact sum of the other two.
\<close>

definition side_length :: "num \<Rightarrow> rat option" where
  "side_length x = (case num_value x of Finite u \<Rightarrow> Some (of_int u / 2 ^ 1074) | _ \<Rightarrow> None)"

definition flat :: "num \<Rightarrow> num \<Rightarrow> num \<Rightarrow> bool" where
  "flat x y z =
     (case (side_length x, side_length y, side_length z) of
        (Some p, Some q, Some r) \<Rightarrow> p + q = r \<or> p + r = q \<or> q + r = p
      | _ \<Rightarrow> False)"

text \<open>
  \<open>as_double x\<close> is the double that takes the place of \<open>x\<close> when \<open>x\<close> is added to a
  float: \<open>x\<close> itself, or the conversion of the integer \<open>x\<close> if it does not raise.  The
  conversion is exact when that double has the length of \<open>x\<close>.
\<close>

fun as_double :: "num \<Rightarrow> double option" where
  "as_double (NInt i) = (case int_to_double i of Inl e \<Rightarrow> None | Inr d \<Rightarrow> Some d)"
| "as_double (NFloat w) = Some w"

definition converts_exactly :: "num \<Rightarrow> bool" where
  "converts_exactly x =
     (case as_double x of None \<Rightarrow> False | Some d \<Rightarrow> double_value d = num_value x)"

fun is_int :: "num \<Rightarrow> bool" where
  "is_int (NInt i) = True"
| "is_int (NFloat w) = False"

text \<open>
  The triples on which the function's sums are exact: three integers (their sums are
  integer sums), or three sides of which every integer converts exactly (each sum is
  then a float sum of doubles that have the sides' lengths).
\<close>

definition same_arithmetic :: "num \<Rightarrow> num \<Rightarrow> num \<Rightarrow> bool" where
  "same_arithmetic x y z =
     (is_int x \<and> is_int y \<and> is_int z
      \<or> converts_exactly x \<and> converts_exactly y \<and> converts_exactly z)"

text \<open>
  The max-based formulation \<open>2 * max(a, b, c) < a + b + c\<close>, written from the words of
  the claim that compares it with the function, with Python's operators.  The built-in
  \<open>max\<close> starts from its first argument and replaces it by a later one only when that
  one is greater.
\<close>

definition py_max3 :: "num \<Rightarrow> num \<Rightarrow> num \<Rightarrow> num" where
  "py_max3 x y z =
     (let m = x;
          m = (if num_gt y m then y else m);
          m = (if num_gt z m then z else m)
      in m)"

definition max_formulation :: "num \<Rightarrow> num \<Rightarrow> num \<Rightarrow> py_error + bool" where
  "max_formulation x y z =
     (case num_mul (NInt 2) (py_max3 x y z) of
        Inl e \<Rightarrow> Inl e
      | Inr d \<Rightarrow>
          (case num_add x y of
             Inl e \<Rightarrow> Inl e
           | Inr s \<Rightarrow>
               (case num_add s z of
                  Inl e \<Rightarrow> Inl e
                | Inr t \<Rightarrow> Inr (num_lt d t))))"

section \<open>Facts about the numeric operators\<close>

lemma ext_eq_not_gt: "ext_eq u v \<Longrightarrow> \<not> ext_gt u v"
  by (cases u; cases v) auto

lemma ext_gt_asym: "ext_gt v u \<Longrightarrow> \<not> ext_gt u v"
  by (cases u; cases v) auto

lemma num_le_not_gt: "num_le x y \<Longrightarrow> \<not> num_gt x y"
  by (auto simp: num_le_def num_lt_def num_eq_def num_gt_def dest: ext_eq_not_gt ext_gt_asym)

lemma num_gt_int [simp]: "num_gt (NInt i) (NInt j) = (j < i)"
  by (simp add: num_gt_def)

lemma num_lt_int [simp]: "num_lt (NInt i) (NInt j) = (i < j)"
  by (simp add: num_lt_def)

text \<open>Every finite double lies below the overflow bound.\<close>

lemma finite_units_bound:
  assumes "m < INF_MAG"
  shows "finite_units m < OVERFLOW_UNITS"
proof -
  let ?e = "m div 2 ^ 52" and ?f = "m mod 2 ^ 52"
  have e: "?e \<le> 2046" using assms by (simp add: INF_MAG_def)
  have f: "2 ^ 52 + ?f \<le> 2 ^ 53 - (1::nat)"
  proof -
    have "?f < 2 ^ 52" by simp
    then show ?thesis by simp
  qed
  have p: "(2::nat) ^ (?e - 1) \<le> 2 ^ 2045"
    using e by (intro power_increasing) auto
  have normal: "(2 ^ 52 + ?f) * 2 ^ (?e - 1) \<le> (2 ^ 53 - (1::nat)) * 2 ^ 2045"
    using f p by (rule mult_le_mono)
  have top: "(2 ^ 53 - (1::nat)) * 2 ^ 2045 < OVERFLOW_UNITS"
    by (simp add: OVERFLOW_UNITS_def)
  have subnormal: "?f < OVERFLOW_UNITS"
  proof -
    have "?f < 2 ^ 52" by simp
    also have "(2::nat) ^ 52 < OVERFLOW_UNITS" by (simp add: OVERFLOW_UNITS_def)
    finally show ?thesis .
  qed
  show ?thesis
  proof (cases "?e = 0")
    case True
    then have "finite_units m = ?f" by (simp add: finite_units_def Let_def)
    with subnormal show ?thesis by (simp only:)
  next
    case False
    then have "finite_units m = (2 ^ 52 + ?f) * 2 ^ (?e - 1)"
      by (simp add: finite_units_def Let_def)
    with normal top show ?thesis by (simp only: le_less_trans)
  qed
qed

lemma double_value_bound:
  assumes "double_value w = Finite v"
  shows "\<bar>v\<bar> < int OVERFLOW_UNITS"
  using assms finite_units_bound [of "magnitude w"]
  by (auto simp: double_value_def Let_def split: if_splits)

text \<open>The conversion of an integer fails exactly when the integer is too large.\<close>

lemma int_to_double_Inl:
  "int_to_double i = Inl e \<longleftrightarrow>
     too_large i \<and> e = OverflowError ''int too large to convert to float''"
  by (auto simp: too_large_def int_to_double_def round_finite_def nat_le_iff nat_mult_distrib
      split: option.splits if_splits)

lemma int_to_double_too_large:
  "too_large i \<Longrightarrow> int_to_double i = Inl (OverflowError ''int too large to convert to float'')"
  by (simp add: int_to_double_Inl)

text \<open>An addition raises only when an integer that is too large meets a float.\<close>

lemma num_add_Inl:
  "num_add x y = Inl e \<Longrightarrow>
     (\<exists>i w. x = NInt i \<and> y = NFloat w \<and> too_large i) \<or>
     (\<exists>w j. x = NFloat w \<and> y = NInt j \<and> too_large j)"
  by (cases x; cases y) (auto simp: int_to_double_Inl split: sum.splits)

lemma num_add_error:
  "num_add x y = Inl e \<Longrightarrow> e = OverflowError ''int too large to convert to float''"
  by (cases x; cases y) (auto simp: int_to_double_Inl split: sum.splits)

lemma fadd_commute: "fadd x y = fadd y x"
  by (auto simp: fadd_def add.commute conj_commute split: extended.splits)

lemma num_add_commute: "num_add x y = num_add y x"
  by (cases x; cases y) (auto simp: fadd_commute add.commute split: sum.splits)

section \<open>The two gates\<close>

lemma can_form_triangle_numeric:
  assumes "as_num a = Some x" "as_num b = Some y" "as_num c = Some z"
  shows "can_form_triangle a b c =
    (if all_positive x y z then triangle_inequality x y z
     else Inl (ValueError ''All sides must be positive numbers''))"
  using assms by (simp add: can_form_triangle_def isinstance_int_float_def)

lemma triangle_inequality_error:
  "triangle_inequality x y z = Inl e \<Longrightarrow> e = OverflowError ''int too large to convert to float''"
  by (auto simp: triangle_inequality_def py_and_def sum_gt_def
      dest: num_add_error split: sum.splits if_splits)

text \<open>
  C2.  When the three arguments are numeric and at least one of them is zero or negative,
  the call raises \<open>ValueError\<close> with the message "All sides must be positive numbers",
  whatever the other two are; when the three are numeric and strictly positive, the call
  raises no \<open>ValueError\<close>.
\<close>

theorem nonpositive_side_raises_ValueError:
  assumes "isinstance_int_float a" "isinstance_int_float b" "isinstance_int_float c"
  shows "(zero_or_negative a \<or> zero_or_negative b \<or> zero_or_negative c \<longrightarrow>
            can_form_triangle a b c = Inl (ValueError ''All sides must be positive numbers''))
       \<and> (strictly_positive a \<and> strictly_positive b \<and> strictly_positive c \<longrightarrow>
            (\<forall>msg. can_form_triangle a b c \<noteq> Inl (ValueError msg)))"
proof -
  from assms obtain x y z where n: "as_num a = Some x" "as_num b = Some y" "as_num c = Some z"
    by (auto simp: isinstance_int_float_def)
  note cft = can_form_triangle_numeric [OF n]
  have "can_form_triangle a b c = Inl (ValueError ''All sides must be positive numbers'')"
    if "zero_or_negative a \<or> zero_or_negative b \<or> zero_or_negative c"
  proof -
    from that n have "\<not> all_positive x y z"
      by (auto simp: zero_or_negative_def all_positive_def dest: num_le_not_gt)
    then show ?thesis by (simp add: cft)
  qed
  moreover have "can_form_triangle a b c \<noteq> Inl (ValueError msg)"
    if "strictly_positive a \<and> strictly_positive b \<and> strictly_positive c" for msg
  proof -
    from that n have "all_positive x y z"
      by (simp add: strictly_positive_def all_positive_def)
    then show ?thesis by (auto simp: cft dest: triangle_inequality_error)
  qed
  ultimately show ?thesis by blast
qed

theorem nonpositive_side_raises_ValueError_witness:
  "can_form_triangle (PyInt (- 1)) (PyInt 2) (PyInt 3) =
     Inl (ValueError ''All sides must be positive numbers'')
   \<and> (\<forall>msg. can_form_triangle (PyInt 3) (PyInt 4) (PyInt 5) \<noteq> Inl (ValueError msg))"
  using nonpositive_side_raises_ValueError [of "PyInt (- 1)" "PyInt 2" "PyInt 3"]
    nonpositive_side_raises_ValueError [of "PyInt 3" "PyInt 4" "PyInt 5"]
  by (simp add: isinstance_int_float_def zero_or_negative_def strictly_positive_def num_le_def)

text \<open>
  C3.  When any of the three arguments is not an \<open>int\<close> or a \<open>float\<close> (a string,
  \<open>None\<close>, a list, a dict), the call raises \<open>TypeError\<close> with the message "All sides must
  be numeric (int or float)".  Nothing is asked of the other arguments: they may be zero,
  negative or non-numeric themselves, so the type test comes before the positivity test
  and before any arithmetic.
\<close>

theorem non_numeric_side_raises_TypeError:
  assumes "\<not> isinstance_int_float a \<or> \<not> isinstance_int_float b \<or> \<not> isinstance_int_float c"
  shows "can_form_triangle a b c = Inl (TypeError ''All sides must be numeric (int or float)'')"
  using assms by (auto simp: can_form_triangle_def)

theorem non_numeric_side_raises_TypeError_witness:
  "can_form_triangle (PyInt (- 1)) (PyStr ''3'') (PyInt 0) =
     Inl (TypeError ''All sides must be numeric (int or float)'')
   \<and> can_form_triangle PyNone (PyInt 4) (PyInt 5) =
     Inl (TypeError ''All sides must be numeric (int or float)'')
   \<and> can_form_triangle (PyInt 3) (PyList []) (PyDict []) =
     Inl (TypeError ''All sides must be numeric (int or float)'')"
  using non_numeric_side_raises_TypeError [of "PyInt (- 1)" "PyStr ''3''" "PyInt 0"]
    non_numeric_side_raises_TypeError [of PyNone "PyInt 4" "PyInt 5"]
    non_numeric_side_raises_TypeError [of "PyInt 3" "PyList []" "PyDict []"]
  by (simp add: isinstance_int_float_def)

section \<open>Evaluating floats\<close>

lemma bit_length_bounds: "0 < k \<Longrightarrow> 2 ^ (bit_length k - 1) \<le> k \<and> k < 2 ^ bit_length k"
proof (induction k rule: bit_length.induct)
  case (1 n)
  show ?case
  proof (cases "n div 2 = 0")
    case True
    with 1 have "n = 1" by (auto simp: div_eq_0_iff)
    then show ?thesis by (simp add: bit_length.simps [of "Suc 0"] bit_length.simps [of 0])
  next
    case False
    with 1 have ih: "2 ^ (bit_length (n div 2) - 1) \<le> n div 2" "n div 2 < 2 ^ bit_length (n div 2)"
      by auto
    have pos: "0 < bit_length (n div 2)"
      using False by (simp add: bit_length.simps [of "n div 2"])
    have bl: "bit_length n = Suc (bit_length (n div 2))"
      using 1 by (simp add: bit_length.simps [of n])
    have "(2::nat) ^ bit_length (n div 2) = 2 * 2 ^ (bit_length (n div 2) - 1)"
      using pos by (cases "bit_length (n div 2)") auto
    with ih have "2 ^ bit_length (n div 2) \<le> n" "n < 2 * 2 ^ bit_length (n div 2)"
      by linarith+
    then show ?thesis by (simp add: bl)
  qed
qed

lemma bit_length_eq:
  assumes "2 ^ n \<le> k" "k < 2 ^ Suc n"
  shows "bit_length k = Suc n"
proof -
  have "0 < k" using assms(1) by (metis gr0I not_le zero_less_numeral zero_less_power)
  then have b: "2 ^ (bit_length k - 1) \<le> k" "k < 2 ^ bit_length k"
    using bit_length_bounds by auto
  from b(1) assms(2) have "(2::nat) ^ (bit_length k - 1) < 2 ^ Suc n" by (rule le_less_trans)
  then have "bit_length k - 1 < Suc n" by (rule power_less_imp_less_exp [rotated]) simp
  moreover from assms(1) b(2) have "(2::nat) ^ n < 2 ^ bit_length k" by (rule le_less_trans)
  then have "n < bit_length k" by (rule power_less_imp_less_exp [rotated]) simp
  ultimately show ?thesis by linarith
qed

text \<open>
  Trailing zero bits of the value take no part in the rounding, so a value \<open>m * 2^n\<close>
  is rounded on its odd part \<open>m\<close>: \<open>d\<close> is the number of low bits of \<open>m\<close> that do not
  fit the 53-bit significand, \<open>t\<close> the number of fraction bits below \<open>2^-1074\<close>.
\<close>

lemma round_half_even_scale: "round_half_even (k * 2 ^ n) (s + n) = round_half_even k s"
proof -
  have d: "(k * 2 ^ n) div 2 ^ (s + n) = k div 2 ^ s"
    by (simp add: power_add)
  have m: "(k * 2 ^ n) mod 2 ^ (s + n) = (k mod 2 ^ s) * 2 ^ n"
    by (simp add: power_add)
  have "(2::nat) ^ (s + n) < 2 * ((k mod 2 ^ s) * 2 ^ n) \<longleftrightarrow> 2 ^ s < 2 * (k mod 2 ^ s)"
    by (simp add: power_add)
  moreover have "2 * ((k mod 2 ^ s) * 2 ^ n) = (2::nat) ^ (s + n) \<longleftrightarrow> 2 * (k mod 2 ^ s) = 2 ^ s"
    by (simp add: power_add)
  ultimately show ?thesis
    unfolding round_half_even_def d m by (simp only: Let_def)
qed

lemma round_finite_scaled:
  assumes "2 ^ (52 + d) \<le> m" "m < 2 ^ (53 + d)" "t \<le> d + n"
    and "m * 2 ^ n < OVERFLOW_UNITS * 2 ^ t"
  shows "round_finite t (m * 2 ^ n) = Some ((d + n - t) * 2 ^ 52 + round_half_even m d)"
proof -
  have "2 ^ (52 + d) * 2 ^ n \<le> m * (2::nat) ^ n"
    using assms(1) by (rule mult_le_mono1)
  moreover have "m * (2::nat) ^ n < 2 ^ (53 + d) * 2 ^ n"
    using assms(2) by simp
  ultimately have "bit_length (m * 2 ^ n) = Suc (52 + d + n)"
    by (intro bit_length_eq) (simp_all add: power_add)
  then have "round_mag t (m * 2 ^ n) = (d + n - t) * 2 ^ 52 + round_half_even m d"
    using assms(3) by (simp add: round_mag_def max_def round_half_even_scale)
  with assms(4) show ?thesis by (simp add: round_finite_def)
qed

text \<open>
  The doubles of the scenarios, by bit pattern: \<open>1.0 = 0x3FF0000000000000\<close>,
  \<open>2.0 = 0x4000000000000000\<close>, \<open>2.5 = 0x4004000000000000\<close>,
  \<open>3.1 = 0x4008CCCCCCCCCCCD\<close>, \<open>3.5 = 0x400C000000000000\<close>,
  \<open>4.5 = 0x4012000000000000\<close>, \<open>2.0 ** 1023 = 0x7FE0000000000000\<close> and
  \<open>float('inf') = 0x7FF0000000000000\<close>.
\<close>

lemmas double_value_unfold =
  double_value_def magnitude_def INF_MAG_def sign_bit_def finite_units_def

lemma double_value_1: "double_value 0x3FF0000000000000 = Finite (2 ^ 1074)"
  by (simp add: double_value_unfold)

lemma double_value_2: "double_value 0x4000000000000000 = Finite (2 * 2 ^ 1074)"
  by (simp add: double_value_unfold)

lemma double_value_2_5: "double_value 0x4004000000000000 = Finite (5 * 2 ^ 1073)"
  by (simp add: double_value_unfold)

lemma double_value_3_1:
  "double_value 0x4008CCCCCCCCCCCD = Finite (6980579422424269 * 2 ^ 1023)"
  by (simp add: double_value_unfold)

lemma double_value_3_5: "double_value 0x400C000000000000 = Finite (7 * 2 ^ 1073)"
  by (simp add: double_value_unfold)

lemma double_value_4_5: "double_value 0x4012000000000000 = Finite (9 * 2 ^ 1073)"
  by (simp add: double_value_unfold)

lemma double_value_2_1023: "double_value 0x7FE0000000000000 = Finite (2 ^ 2097)"
  by (simp add: double_value_unfold)

lemma double_value_inf: "double_value 0x7FF0000000000000 = PosInf"
  by (simp add: double_value_unfold)

lemma int_to_double_1: "int_to_double 1 = Inr 0x3FF0000000000000"
  using round_finite_scaled [of 0 "2 ^ 52" 0 1022]
  by (simp add: int_to_double_def make_double_def round_half_even_def OVERFLOW_UNITS_def)

lemma int_to_double_2: "int_to_double 2 = Inr 0x4000000000000000"
  using round_finite_scaled [of 0 "2 ^ 52" 0 1023]
  by (simp add: int_to_double_def make_double_def round_half_even_def OVERFLOW_UNITS_def)

lemma fadd_1_1: "fadd 0x3FF0000000000000 0x3FF0000000000000 = 0x4000000000000000"
  using round_finite_scaled [of 0 "2 ^ 52" 0 1023]
  by (simp add: fadd_def double_value_1 round_signed_def make_double_def round_half_even_def
      OVERFLOW_UNITS_def)

lemma fadd_1_2_5: "fadd 0x3FF0000000000000 0x4004000000000000 = 0x400C000000000000"
  using round_finite_scaled [of 0 "7 * 2 ^ 50" 0 1023]
  by (simp add: fadd_def double_value_1 double_value_2_5 round_signed_def make_double_def
      round_half_even_def OVERFLOW_UNITS_def)

lemma fadd_2_2_5: "fadd 0x4000000000000000 0x4004000000000000 = 0x4012000000000000"
  using round_finite_scaled [of 0 "9 * 2 ^ 49" 0 1024]
  by (simp add: fadd_def double_value_2 double_value_2_5 round_signed_def make_double_def
      round_half_even_def OVERFLOW_UNITS_def)

lemma fadd_overflow: "fadd 0x7FE0000000000000 0x7FE0000000000000 = 0x7FF0000000000000"
  by (simp add: fadd_def double_value_2_1023 round_signed_def round_finite_def make_double_def
      OVERFLOW_UNITS_def INF_MAG_def)

lemma fadd_inf: "fadd 0x7FF0000000000000 0x7FE0000000000000 = 0x7FF0000000000000"
  by (simp add: fadd_def double_value_2_1023 double_value_inf make_double_def INF_MAG_def)

lemma fmul_overflow: "fmul 0x4000000000000000 0x7FE0000000000000 = 0x7FF0000000000000"
  by (simp add: fmul_def double_value_2 double_value_2_1023 round_signed_def round_finite_def
      make_double_def OVERFLOW_UNITS_def INF_MAG_def sign_bit_def)

lemmas can_form_triangle_unfold =
  can_form_triangle_def isinstance_int_float_def all_positive_def
  triangle_inequality_def sum_gt_def py_and_def

section \<open>The scenarios of the specification\<close>

lemma scenario_3_4_5: "can_form_triangle (PyInt 3) (PyInt 4) (PyInt 5) = Inr True"
  by (simp add: can_form_triangle_unfold)

lemma scenario_5_5_5: "can_form_triangle (PyInt 5) (PyInt 5) (PyInt 5) = Inr True"
  by (simp add: can_form_triangle_unfold)

lemma scenario_1_2_5: "can_form_triangle (PyInt 1) (PyInt 2) (PyInt 5) = Inr False"
  by (simp add: can_form_triangle_unfold)

lemma scenario_1_2_3: "can_form_triangle (PyInt 1) (PyInt 2) (PyInt 3) = Inr False"
  by (simp add: can_form_triangle_unfold)

lemma scenario_negative:
  "can_form_triangle (PyInt (- 1)) (PyInt 2) (PyInt 3) =
     Inl (ValueError ''All sides must be positive numbers'')"
  by (simp add: can_form_triangle_unfold)

lemma scenario_zero:
  "can_form_triangle (PyInt 0) (PyInt 2) (PyInt 3) =
     Inl (ValueError ''All sides must be positive numbers'')"
  by (simp add: can_form_triangle_unfold)

lemma scenario_string:
  "can_form_triangle (PyStr ''3'') (PyInt 4) (PyInt 5) =
     Inl (TypeError ''All sides must be numeric (int or float)'')"
  by (simp add: can_form_triangle_unfold)

lemma scenario_1_2_2_5:
  "can_form_triangle (PyInt 1) (PyInt 2) (PyFloat 0x4004000000000000) = Inr True"
  by (simp add: can_form_triangle_unfold num_gt_def int_to_double_1 int_to_double_2
      fadd_1_2_5 fadd_2_2_5 double_value_2_5 double_value_3_5 double_value_4_5)

lemma scenario_1_2_3_1:
  "can_form_triangle (PyInt 1) (PyInt 2) (PyFloat 0x4008CCCCCCCCCCCD) = Inr False"
  by (simp add: can_form_triangle_unfold num_gt_def double_value_3_1)

text \<open>
  C7.  The nine scenarios of the specification: \<open>(3, 4, 5)\<close> and \<open>(5, 5, 5)\<close> give
  \<open>True\<close>; \<open>(1, 2, 5)\<close> and \<open>(1, 2, 3)\<close> give \<open>False\<close>; \<open>(-1, 2, 3)\<close> and \<open>(0, 2, 3)\<close>
  raise \<open>ValueError\<close>; \<open>("3", 4, 5)\<close> raises \<open>TypeError\<close>; \<open>(1, 2, 2.5)\<close> gives \<open>True\<close>
  and \<open>(1, 2, 3.1)\<close> gives \<open>False\<close>.  The floats \<open>2.5\<close> and \<open>3.1\<close> are the doubles
  \<open>0x4004000000000000\<close> and \<open>0x4008CCCCCCCCCCCD\<close>.
\<close>

theorem specification_scenarios:
  "can_form_triangle (PyInt 3) (PyInt 4) (PyInt 5) = Inr True
   \<and> can_form_triangle (PyInt 5) (PyInt 5) (PyInt 5) = Inr True
   \<and> can_form_triangle (PyInt 1) (PyInt 2) (PyInt 5) = Inr False
   \<and> can_form_triangle (PyInt 1) (PyInt 2) (PyInt 3) = Inr False
   \<and> can_form_triangle (PyInt (- 1)) (PyInt 2) (PyInt 3) =
       Inl (ValueError ''All sides must be positive numbers'')
   \<and> can_form_triangle (PyInt 0) (PyInt 2) (PyInt 3) =
       Inl (ValueError ''All sides must be positive numbers'')
   \<and> can_form_triangle (PyStr ''3'') (PyInt 4) (PyInt 5) =
       Inl (TypeError ''All sides must be numeric (int or float)'')
   \<and> can_form_triangle (PyInt 1) (PyInt 2) (PyFloat 0x4004000000000000) = Inr True
   \<and> can_form_triangle (PyInt 1) (PyInt 2) (PyFloat 0x4008CCCCCCCCCCCD) = Inr False"
  by (simp only: scenario_3_4_5 scenario_5_5_5 scenario_1_2_5 scenario_1_2_3
      scenario_negative scenario_zero scenario_string scenario_1_2_2_5 scenario_1_2_3_1
      simp_thms)

text \<open>
  C9.  A \<open>bool\<close> passes the \<open>isinstance\<close> test, since \<open>bool\<close> is a subclass of \<open>int\<close>:
  \<open>can_form_triangle(True, True, True)\<close> returns \<open>True\<close> (each side counts as 1) and
  \<open>can_form_triangle(False, 2, 3)\<close> raises \<open>ValueError\<close> (\<open>False\<close> counts as 0); neither
  raises \<open>TypeError\<close>.
\<close>

theorem bool_sides_pass_type_check:
  "isinstance_int_float (PyBool flag)
   \<and> can_form_triangle (PyBool True) (PyBool True) (PyBool True) = Inr True
   \<and> can_form_triangle (PyBool False) (PyInt 2) (PyInt 3) =
       Inl (ValueError ''All sides must be positive numbers'')"
  by (simp add: can_form_triangle_unfold)

section \<open>An integer too large for a double next to a float\<close>

text \<open>
  The addition in the first conjunct converts an \<open>int\<close> operand when the other operand
  is a \<open>float\<close>; an integer of magnitude \<open>2^1024 - 2^970\<close> or more makes that conversion
  raise \<open>OverflowError\<close>, which leaves the function.
\<close>

lemma too_large_int_first:
  assumes "too_large i" "0 < i" "num_gt (NFloat v) (NInt 0)"
    and "as_num c = Some z" "num_gt z (NInt 0)"
  shows "can_form_triangle (PyInt i) (PyFloat v) c =
     Inl (OverflowError ''int too large to convert to float'')"
  using assms
  by (simp add: can_form_triangle_unfold int_to_double_too_large)

lemma too_large_int_second:
  assumes "too_large i" "0 < i" "num_gt (NFloat v) (NInt 0)"
    and "as_num c = Some z" "num_gt z (NInt 0)"
  shows "can_form_triangle (PyFloat v) (PyInt i) c =
     Inl (OverflowError ''int too large to convert to float'')"
  using assms
  by (simp add: can_form_triangle_unfold int_to_double_too_large)

lemma one_positive: "num_gt (NFloat 0x3FF0000000000000) (NInt 0)"
  by (simp add: num_gt_def double_value_1)

text \<open>
  C1, at \<open>can_form_triangle(2**1024, 1.0, 1.0)\<close>: the three arguments are numeric and
  strictly positive, and the call neither returns \<open>True\<close> nor \<open>False\<close>: it raises
  \<open>OverflowError\<close>.
\<close>

theorem large_int_float_float_raises:
  "can_form_triangle (PyInt (2 ^ 1024)) (PyFloat 0x3FF0000000000000) (PyFloat 0x3FF0000000000000) =
     Inl (OverflowError ''int too large to convert to float'')"
  by (rule too_large_int_first [where z = "NFloat 0x3FF0000000000000"])
     (simp_all add: too_large_def OVERFLOW_UNITS_def one_positive)

text \<open>
  C4, at the triple \<open>(1.0, 1.0, 2**1024)\<close>: in this order the call returns \<open>False\<close>,
  with the integer first it raises \<open>OverflowError\<close>.
\<close>

theorem permuted_arguments_differ:
  "can_form_triangle (PyFloat 0x3FF0000000000000) (PyFloat 0x3FF0000000000000) (PyInt (2 ^ 1024)) =
     Inr False
   \<and> can_form_triangle (PyInt (2 ^ 1024)) (PyFloat 0x3FF0000000000000) (PyFloat 0x3FF0000000000000) =
     Inl (OverflowError ''int too large to convert to float'')"
proof
  show "can_form_triangle (PyFloat 0x3FF0000000000000) (PyFloat 0x3FF0000000000000)
      (PyInt (2 ^ 1024)) = Inr False"
    by (simp add: can_form_triangle_unfold num_gt_def double_value_1 double_value_2 fadd_1_1)
  show "can_form_triangle (PyInt (2 ^ 1024)) (PyFloat 0x3FF0000000000000)
      (PyFloat 0x3FF0000000000000) = Inl (OverflowError ''int too large to convert to float'')"
    by (rule too_large_int_first [where z = "NFloat 0x3FF0000000000000"])
       (simp_all add: too_large_def OVERFLOW_UNITS_def one_positive)
qed

text \<open>
  C6, at \<open>can_form_triangle(1.0, 2**1024, 3)\<close>: the call ends in an exception that is
  neither the \<open>TypeError\<close> nor the \<open>ValueError\<close> of the function.
\<close>

theorem third_error_kind:
  "can_form_triangle (PyFloat 0x3FF0000000000000) (PyInt (2 ^ 1024)) (PyInt 3) =
     Inl (OverflowError ''int too large to convert to float'')"
  by (rule too_large_int_second [where z = "NInt 3"])
     (simp_all add: too_large_def OVERFLOW_UNITS_def one_positive)

text \<open>
  What holds of every call: it returns a boolean or raises one of three exceptions, and
  the third needs an integer that is too large among the arguments.
\<close>

lemma can_form_triangle_outcomes:
  "(\<exists>r. can_form_triangle a b c = Inr r)
   \<or> can_form_triangle a b c = Inl (TypeError ''All sides must be numeric (int or float)'')
   \<or> can_form_triangle a b c = Inl (ValueError ''All sides must be positive numbers'')
   \<or> can_form_triangle a b c = Inl (OverflowError ''int too large to convert to float'')"
proof (cases "list_all isinstance_int_float [a, b, c]")
  case False
  then show ?thesis by (simp add: can_form_triangle_def)
next
  case True
  then obtain x y z where n: "as_num a = Some x" "as_num b = Some y" "as_num c = Some z"
    by (auto simp: isinstance_int_float_def)
  show ?thesis
  proof (cases "triangle_inequality x y z")
    case (Inl e)
    then show ?thesis
      using triangle_inequality_error [OF Inl] by (simp add: can_form_triangle_numeric [OF n])
  next
    case (Inr r)
    then show ?thesis by (simp add: can_form_triangle_numeric [OF n])
  qed
qed

text \<open>
  For numeric, strictly positive arguments the call returns \<open>True\<close> exactly when each of
  the three conjuncts evaluates to \<open>True\<close>; this half of C1 holds for every input.
\<close>

lemma can_form_triangle_True_iff:
  assumes "as_num a = Some x" "as_num b = Some y" "as_num c = Some z"
    and "all_positive x y z"
  shows "can_form_triangle a b c = Inr True \<longleftrightarrow>
    sum_gt x y z = Inr True \<and> sum_gt x z y = Inr True \<and> sum_gt y z x = Inr True"
  using assms(4)
  by (auto simp: can_form_triangle_numeric [OF assms(1-3)] triangle_inequality_def py_and_def
      split: sum.splits if_splits)

lemma can_form_triangle_ints:
  assumes "as_num a = Some (NInt i)" "as_num b = Some (NInt j)" "as_num c = Some (NInt k)"
    and "0 < i" "0 < j" "0 < k"
  shows "can_form_triangle a b c = Inr (k < i + j \<and> j < i + k \<and> i < j + k)"
  using assms
  by (simp add: can_form_triangle_numeric all_positive_def triangle_inequality_def sum_gt_def
      py_and_def)

text \<open>
  Without an overflow the result is the conjunction of the three comparisons, and it does
  not depend on the order of the arguments.
\<close>

lemma triangle_inequality_defined:
  assumes "num_add x y = Inr p" "num_add x z = Inr q" "num_add y z = Inr r"
  shows "triangle_inequality x y z = Inr (num_gt p z \<and> num_gt q y \<and> num_gt r x)"
  using assms by (simp add: triangle_inequality_def sum_gt_def py_and_def)

lemma triangle_inequality_swap:
  assumes "num_add x y = Inr p" "num_add x z = Inr q" "num_add y z = Inr r"
  shows "triangle_inequality y x z = triangle_inequality x y z"
    and "triangle_inequality x z y = triangle_inequality x y z"
proof -
  have c: "num_add y x = Inr p" "num_add z x = Inr q" "num_add z y = Inr r"
    using assms by (simp_all only: num_add_commute [of y x] num_add_commute [of z x]
        num_add_commute [of z y])
  show "triangle_inequality y x z = triangle_inequality x y z"
    using assms c by (auto simp: triangle_inequality_defined)
  show "triangle_inequality x z y = triangle_inequality x y z"
    using assms c by (auto simp: triangle_inequality_defined)
qed

section \<open>The max-based formulation\<close>

lemma max_formulation_ints:
  "max_formulation (NInt i) (NInt j) (NInt k) = Inr (2 * max i (max j k) < i + j + k)"
  by (auto simp: max_formulation_def py_max3_def Let_def max_def)

text \<open>
  C10 as stated fails on floats.  At \<open>a = b = c = 2.0 ** 1023\<close> every pairwise sum
  overflows to \<open>inf\<close> and exceeds the third side, so the function returns \<open>True\<close>, while
  \<open>2 * max(a, b, c)\<close> and \<open>a + b + c\<close> are both \<open>inf\<close> and \<open>inf < inf\<close> is \<open>False\<close>.
\<close>

theorem max_formulation_differs_on_floats:
  "strictly_positive (PyFloat 0x7FE0000000000000)
   \<and> can_form_triangle (PyFloat 0x7FE0000000000000) (PyFloat 0x7FE0000000000000)
       (PyFloat 0x7FE0000000000000) = Inr True
   \<and> max_formulation (NFloat 0x7FE0000000000000) (NFloat 0x7FE0000000000000)
       (NFloat 0x7FE0000000000000) = Inr False"
proof (intro conjI)
  show "strictly_positive (PyFloat 0x7FE0000000000000)"
    by (simp add: strictly_positive_def num_gt_def double_value_2_1023)
  show "can_form_triangle (PyFloat 0x7FE0000000000000) (PyFloat 0x7FE0000000000000)
      (PyFloat 0x7FE0000000000000) = Inr True"
    by (simp add: can_form_triangle_unfold num_gt_def double_value_2_1023 double_value_inf
        fadd_overflow)
  show "max_formulation (NFloat 0x7FE0000000000000) (NFloat 0x7FE0000000000000)
      (NFloat 0x7FE0000000000000) = Inr False"
    by (simp add: max_formulation_def py_max3_def num_gt_def num_lt_def double_value_2_1023
        double_value_inf fadd_overflow fadd_inf fmul_overflow int_to_double_2)
qed

text \<open>
  C10, amended: for strictly positive arguments of type \<open>int\<close> (or \<open>bool\<close>), the function
  returns the value of \<open>2 * max(a, b, c) < a + b + c\<close>, and at most one of its three
  conjuncts is false.
\<close>

theorem max_formulation_on_ints:
  assumes "as_num a = Some (NInt i)" "as_num b = Some (NInt j)" "as_num c = Some (NInt k)"
    and "strictly_positive a" "strictly_positive b" "strictly_positive c"
  shows "can_form_triangle a b c = max_formulation (NInt i) (NInt j) (NInt k)
       \<and> can_form_triangle a b c = Inr (2 * max i (max j k) < i + j + k)
       \<and> length (filter (\<lambda>conjunct. conjunct = Inr False)
            [sum_gt (NInt i) (NInt j) (NInt k), sum_gt (NInt i) (NInt k) (NInt j),
             sum_gt (NInt j) (NInt k) (NInt i)]) \<le> 1"
proof -
  from assms have pos: "0 < i" "0 < j" "0 < k"
    by (simp_all add: strictly_positive_def)
  with assms(1-3) have "can_form_triangle a b c = Inr (k < i + j \<and> j < i + k \<and> i < j + k)"
    by (rule can_form_triangle_ints)
  moreover from pos have "(k < i + j \<and> j < i + k \<and> i < j + k) = (2 * max i (max j k) < i + j + k)"
    by (auto simp: max_def)
  moreover from pos have "length (filter (\<lambda>conjunct. conjunct = Inr False)
            [sum_gt (NInt i) (NInt j) (NInt k), sum_gt (NInt i) (NInt k) (NInt j),
             sum_gt (NInt j) (NInt k) (NInt i)]) \<le> 1"
    by (auto simp: sum_gt_def)
  ultimately show ?thesis by (simp add: max_formulation_ints)
qed

theorem max_formulation_on_ints_witness:
  "can_form_triangle (PyInt 3) (PyInt 4) (PyInt 5) = Inr True
   \<and> max_formulation (NInt 3) (NInt 4) (NInt 5) = Inr True
   \<and> can_form_triangle (PyBool True) (PyInt 2) (PyInt 3) = Inr False
   \<and> max_formulation (NInt 1) (NInt 2) (NInt 3) = Inr False"
  using max_formulation_on_ints [of "PyInt 3" 3 "PyInt 4" 4 "PyInt 5" 5]
    max_formulation_on_ints [of "PyBool True" 1 "PyInt 2" 2 "PyInt 3" 3]
  by (auto simp: strictly_positive_def)

text \<open>
  Rounding alone separates the two formulations as well, without any overflow: at
  \<open>a = 2.0 ** 52 + 3\<close>, \<open>b = 2.0 ** 52\<close>, \<open>c = 3.0\<close> the sum \<open>b + c\<close> equals \<open>a\<close> and the
  function returns \<open>False\<close>, while \<open>a + b\<close> rounds up to \<open>2 ** 53 + 4\<close> and
  \<open>(a + b) + c\<close> rounds up to \<open>2 ** 53 + 8\<close>, above \<open>2 * a = 2 ** 53 + 6\<close>.
\<close>

lemma double_value_3: "double_value 0x4008000000000000 = Finite (3 * 2 ^ 1074)"
  by (simp add: double_value_unfold)

lemma double_value_a: "double_value 0x4330000000000003 = Finite ((2 ^ 52 + 3) * 2 ^ 1074)"
  by (simp add: double_value_unfold)

lemma double_value_b: "double_value 0x4330000000000000 = Finite (2 ^ 52 * 2 ^ 1074)"
  by (simp add: double_value_unfold)

lemma double_value_a_plus_c:
  "double_value 0x4330000000000006 = Finite ((2 ^ 52 + 6) * 2 ^ 1074)"
  by (simp add: double_value_unfold)

lemma double_value_a_plus_b:
  "double_value 0x4340000000000002 = Finite ((2 ^ 53 + 4) * 2 ^ 1074)"
  by (simp add: double_value_unfold)

lemma double_value_twice_a:
  "double_value 0x4340000000000003 = Finite ((2 ^ 53 + 6) * 2 ^ 1074)"
  by (simp add: double_value_unfold)

lemma double_value_a_plus_b_plus_c:
  "double_value 0x4340000000000004 = Finite ((2 ^ 53 + 8) * 2 ^ 1074)"
  by (simp add: double_value_unfold)

lemma fadd_a_b: "fadd 0x4330000000000003 0x4330000000000000 = 0x4340000000000002"
  using round_finite_scaled [of 1 "2 ^ 53 + 3" 0 1074]
  by (simp add: fadd_def double_value_a double_value_b round_signed_def make_double_def
      round_half_even_def OVERFLOW_UNITS_def)

lemma fadd_a_c: "fadd 0x4330000000000003 0x4008000000000000 = 0x4330000000000006"
  using round_finite_scaled [of 0 "2 ^ 52 + 6" 0 1074]
  by (simp add: fadd_def double_value_a double_value_3 round_signed_def make_double_def
      round_half_even_def OVERFLOW_UNITS_def)

lemma fadd_b_c: "fadd 0x4330000000000000 0x4008000000000000 = 0x4330000000000003"
  using round_finite_scaled [of 0 "2 ^ 52 + 3" 0 1074]
  by (simp add: fadd_def double_value_b double_value_3 round_signed_def make_double_def
      round_half_even_def OVERFLOW_UNITS_def)

lemma fadd_ab_c: "fadd 0x4340000000000002 0x4008000000000000 = 0x4340000000000004"
  using round_finite_scaled [of 1 "2 ^ 53 + 7" 0 1074]
  by (simp add: fadd_def double_value_a_plus_b double_value_3 round_signed_def make_double_def
      round_half_even_def OVERFLOW_UNITS_def)

lemma fmul_2_a: "fmul 0x4000000000000000 0x4330000000000003 = 0x4340000000000003"
  using round_finite_scaled [of 0 "2 ^ 52 + 3" 1074 2149]
  by (simp add: fmul_def double_value_2 double_value_a round_signed_def make_double_def
      round_half_even_def OVERFLOW_UNITS_def sign_bit_def nat_mult_distrib)

lemma max_formulation_differs_by_rounding:
  "can_form_triangle (PyFloat 0x4330000000000003) (PyFloat 0x4330000000000000)
       (PyFloat 0x4008000000000000) = Inr False
   \<and> max_formulation (NFloat 0x4330000000000003) (NFloat 0x4330000000000000)
       (NFloat 0x4008000000000000) = Inr True"
proof
  show "can_form_triangle (PyFloat 0x4330000000000003) (PyFloat 0x4330000000000000)
       (PyFloat 0x4008000000000000) = Inr False"
    by (simp add: can_form_triangle_unfold num_gt_def double_value_a double_value_b
        double_value_3 fadd_a_b fadd_a_c fadd_b_c double_value_a_plus_b double_value_a_plus_c)
  show "max_formulation (NFloat 0x4330000000000003) (NFloat 0x4330000000000000)
       (NFloat 0x4008000000000000) = Inr True"
    by (simp add: max_formulation_def py_max3_def num_gt_def num_lt_def double_value_a
        double_value_b double_value_3 int_to_double_2 fmul_2_a fadd_a_b fadd_ab_c
        double_value_twice_a double_value_a_plus_b_plus_c)
qed

section \<open>Checks of the float model against known values\<close>

text \<open>
  Conversion rounds to nearest, ties to even: \<open>float(2**53 + 1)\<close> is \<open>2.0 ** 53\<close> and
  \<open>float(2**53 + 3)\<close> is \<open>2.0 ** 53 + 4\<close>.  The largest double, \<open>0x7FEFFFFFFFFFFFFF\<close>,
  is \<open>2**1024 - 2**971\<close>; integers above it convert to it as long as they stay below the
  halfway point \<open>2**1024 - 2**970\<close>, where the conversion starts to raise.
\<close>

lemma int_to_double_ties_to_even:
  "int_to_double (2 ^ 53 + 1) = Inr 0x4340000000000000"
  "int_to_double (2 ^ 53 + 3) = Inr 0x4340000000000002"
  using round_finite_scaled [of 1 "2 ^ 53 + 1" 0 1074] round_finite_scaled [of 1 "2 ^ 53 + 3" 0 1074]
  by (simp_all add: int_to_double_def make_double_def round_half_even_def OVERFLOW_UNITS_def
      nat_add_distrib nat_power_eq)

lemma int_to_double_largest:
  "int_to_double (2 ^ 1024 - 2 ^ 971) = Inr 0x7FEFFFFFFFFFFFFF"
  "int_to_double (2 ^ 1024 - 2 ^ 970 - 2 ^ 969) = Inr 0x7FEFFFFFFFFFFFFF"
  "int_to_double (2 ^ 1024 - 2 ^ 970) = Inl (OverflowError ''int too large to convert to float'')"
  using round_finite_scaled [of 0 "2 ^ 53 - 1" 0 2045] round_finite_scaled [of 2 "2 ^ 55 - 3" 0 2043]
  by (simp_all add: int_to_double_def make_double_def round_half_even_def round_finite_def
      OVERFLOW_UNITS_def)

text \<open>
  The decimal triple of \<open>test_floating_point_precision\<close>: \<open>0.1 + 0.2\<close> is the double
  \<open>0x3FD3333333333334\<close>, one unit in the last place above \<open>0.3 = 0x3FD3333333333333\<close>,
  so \<open>can_form_triangle(0.1, 0.2, 0.3)\<close> returns \<open>True\<close>.  The test accepts either
  boolean there.
\<close>

lemma double_value_tenths:
  "double_value 0x3FB999999999999A = Finite (7205759403792794 * 2 ^ 1018)"
  "double_value 0x3FC999999999999A = Finite (7205759403792794 * 2 ^ 1019)"
  "double_value 0x3FD3333333333333 = Finite (5404319552844595 * 2 ^ 1020)"
  "double_value 0x3FD3333333333334 = Finite (5404319552844596 * 2 ^ 1020)"
  "double_value 0x3FD999999999999A = Finite (7205759403792794 * 2 ^ 1020)"
  "double_value 0x3FE0000000000000 = Finite (2 ^ 52 * 2 ^ 1021)"
  by (simp_all add: double_value_unfold)

lemma fadd_tenths:
  "fadd 0x3FB999999999999A 0x3FC999999999999A = 0x3FD3333333333334"
  "fadd 0x3FB999999999999A 0x3FD3333333333333 = 0x3FD999999999999A"
  "fadd 0x3FC999999999999A 0x3FD3333333333333 = 0x3FE0000000000000"
  using round_finite_scaled [of 2 "21617278211378382" 0 1018]
    round_finite_scaled [of 2 "28823037615171174" 0 1018]
    round_finite_scaled [of 2 "2 ^ 54" 0 1019]
  by (simp_all add: fadd_def double_value_tenths round_signed_def make_double_def
      round_half_even_def OVERFLOW_UNITS_def)

lemma decimal_degenerate_triple:
  "can_form_triangle (PyFloat 0x3FB999999999999A) (PyFloat 0x3FC999999999999A)
     (PyFloat 0x3FD3333333333333) = Inr True"
  by (simp add: can_form_triangle_unfold num_gt_def double_value_tenths fadd_tenths)

section \<open>Flat triples\<close>

text \<open>Flatness, in the units of \<open>num_value\<close>.\<close>

lemma flat_units:
  "flat x y z \<longleftrightarrow>
     (\<exists>p q r. num_value x = Finite p \<and> num_value y = Finite q \<and> num_value z = Finite r \<and>
        (p + q = r \<or> p + r = q \<or> q + r = p))"
proof -
  have eq: "(rat_of_int u + rat_of_int v = rat_of_int w) \<longleftrightarrow> u + v = w" for u v w :: int
    by (metis of_int_add of_int_eq_iff)
  show ?thesis
    by (cases "num_value x"; cases "num_value y"; cases "num_value z")
       (simp_all add: flat_def side_length_def eq)
qed

lemma bit_length_le:
  assumes "k < 2 ^ n"
  shows "bit_length k \<le> n"
proof (cases "k = 0")
  case True
  then show ?thesis by (simp add: bit_length.simps [of 0])
next
  case False
  then have "2 ^ (bit_length k - 1) \<le> k" using bit_length_bounds by simp
  from this assms have "(2::nat) ^ (bit_length k - 1) < 2 ^ n" by (rule le_less_trans)
  then have "bit_length k - 1 < n" by (rule power_less_imp_less_exp [rotated]) simp
  then show ?thesis by linarith
qed

text \<open>Rounding the value of a finite double gives that double back.\<close>

lemma round_finite_units:
  assumes "m < INF_MAG"
  shows "round_finite 0 (finite_units m) = Some m"
proof (cases "m div 2 ^ 52 = 0")
  case True
  then have m: "m < 2 ^ 52" by (simp add: div_eq_0_iff)
  then have u: "finite_units m = m" by (simp add: finite_units_def Let_def)
  have "bit_length m \<le> 52" using m by (rule bit_length_le)
  then have "round_mag 0 m = m"
    by (simp add: round_mag_def round_half_even_def)
  moreover have "m < OVERFLOW_UNITS" using finite_units_bound [OF assms] u by simp
  ultimately show ?thesis by (simp add: round_finite_def u)
next
  case False
  let ?e = "m div 2 ^ 52" and ?f = "m mod 2 ^ 52"
  from False have u: "finite_units m = (2 ^ 52 + ?f) * 2 ^ (?e - 1)"
    by (simp add: finite_units_def Let_def)
  have "round_finite 0 ((2 ^ 52 + ?f) * 2 ^ (?e - 1)) =
      Some ((0 + (?e - 1) - 0) * 2 ^ 52 + round_half_even (2 ^ 52 + ?f) 0)"
  proof (rule round_finite_scaled)
    show "(2::nat) ^ (52 + 0) \<le> 2 ^ 52 + ?f" by simp
    have "?f < 2 ^ 52" by simp
    then show "2 ^ 52 + ?f < 2 ^ (53 + 0)" by simp
    show "0 \<le> 0 + (?e - 1)" by simp
    show "(2 ^ 52 + ?f) * 2 ^ (?e - 1) < OVERFLOW_UNITS * 2 ^ 0"
      using finite_units_bound [OF assms] u by simp
  qed
  moreover have "(?e - 1) * 2 ^ 52 + (2 ^ 52 + ?f) = m"
  proof -
    have "(?e - 1) * 2 ^ 52 + 2 ^ 52 = ?e * 2 ^ 52"
      using False by (cases ?e) simp_all
    then have "(?e - 1) * 2 ^ 52 + (2 ^ 52 + ?f) = ?e * 2 ^ 52 + ?f" by linarith
    then show ?thesis by simp
  qed
  ultimately show ?thesis by (simp add: u round_half_even_def)
qed

lemma positive_double:
  assumes "double_value w = Finite r" "0 < r"
  shows "magnitude w < INF_MAG" "r = int (finite_units (magnitude w))"
    "make_double False (magnitude w) = w"
proof -
  from assms show m: "magnitude w < INF_MAG" and r: "r = int (finite_units (magnitude w))"
    by (auto simp: double_value_def Let_def split: if_splits)
  from assms have "\<not> sign_bit w"
    by (auto simp: double_value_def Let_def split: if_splits)
  then have "unat w < 2 ^ 63" by (simp add: sign_bit_def)
  then show "make_double False (magnitude w) = w"
    by (simp add: make_double_def magnitude_def)
qed

text \<open>A float sum whose exact value is a double is that double.\<close>

lemma fadd_exact:
  assumes "double_value u = Finite p" "double_value v = Finite q" "double_value w = Finite (p + q)"
    and "0 < p" "0 < q"
  shows "fadd u v = w"
proof -
  from assms(4,5) have pos: "0 < p + q" by simp
  note w = positive_double [OF assms(3) pos]
  from w(2) have "nat \<bar>p + q\<bar> = finite_units (magnitude w)" by simp
  with round_finite_units [OF w(1)] have "round_finite 0 (nat \<bar>p + q\<bar>) = Some (magnitude w)"
    by simp
  with pos show ?thesis
    by (simp add: fadd_def assms(1,2) round_signed_def w(3))
qed


lemma num_add_as_double:
  assumes "\<not> (is_int x \<and> is_int y)" "as_double x = Some u" "as_double y = Some v"
  shows "num_add x y = Inr (NFloat (fadd u v))"
  using assms by (cases x; cases y) (auto split: sum.splits)

lemma converts_exactlyD:
  assumes "converts_exactly x"
  obtains d where "as_double x = Some d" "double_value d = num_value x"
  using assms by (auto simp: converts_exactly_def split: option.splits)

lemma sum_gt_returns:
  assumes "is_int x \<and> is_int y \<or> converts_exactly x \<and> converts_exactly y"
  shows "\<exists>r. sum_gt x y z = Inr r"
proof (cases "is_int x \<and> is_int y")
  case True
  then show ?thesis by (cases x; cases y) (simp_all add: sum_gt_def)
next
  case False
  with assms have c: "converts_exactly x" "converts_exactly y" by auto
  from c(1) obtain u where u: "as_double x = Some u" by (rule converts_exactlyD)
  from c(2) obtain v where v: "as_double y = Some v" by (rule converts_exactlyD)
  show ?thesis by (simp add: sum_gt_def num_add_as_double [OF False u v])
qed

lemma exact_sum_not_greater:
  assumes ok: "is_int x \<and> is_int y \<or> converts_exactly x \<and> converts_exactly y \<and> converts_exactly z"
    and val: "num_value x = Finite p" "num_value y = Finite q" "num_value z = Finite (p + q)"
    and pos: "0 < p" "0 < q"
  shows "sum_gt x y z = Inr False"
proof (cases "is_int x \<and> is_int y")
  case True
  then obtain i j where "x = NInt i" "y = NInt j" by (cases x; cases y) auto
  with val show ?thesis by (auto simp: sum_gt_def num_gt_def distrib_right)
next
  case False
  with ok have c: "converts_exactly x" "converts_exactly y" "converts_exactly z" by auto
  from c(1) val(1) obtain u where u: "as_double x = Some u" "double_value u = Finite p"
    by (auto elim: converts_exactlyD)
  from c(2) val(2) obtain v where v: "as_double y = Some v" "double_value v = Finite q"
    by (auto elim: converts_exactlyD)
  from c(3) val(3) obtain w where w: "double_value w = Finite (p + q)"
    by (auto elim: converts_exactlyD)
  have "fadd u v = w" using u(2) v(2) w pos by (rule fadd_exact)
  then have "num_add x y = Inr (NFloat w)"
    by (simp add: num_add_as_double [OF False u(1) v(1)])
  then show ?thesis by (simp add: sum_gt_def num_gt_def val(3) w)
qed

lemma int_to_double_2_53_5: "int_to_double (2 ^ 53 + 5) = Inr 0x4340000000000002"
  using round_finite_scaled [of 1 "2 ^ 53 + 5" 0 1074]
  by (simp add: int_to_double_def make_double_def round_half_even_def OVERFLOW_UNITS_def
      nat_add_distrib nat_power_eq)

lemma fadd_2_53_4_and_2:
  "fadd 0x4340000000000002 0x4000000000000000 = 0x4340000000000003"
  "fadd 0x4000000000000000 0x4340000000000002 = 0x4340000000000003"
  using round_finite_scaled [of 1 "2 ^ 53 + 6" 0 1074]
  by (simp_all add: fadd_def double_value_2 double_value_a_plus_b round_signed_def
      make_double_def round_half_even_def OVERFLOW_UNITS_def)

lemma double_value_quarters:
  "double_value 0x3FD0000000000000 = Finite (2 ^ 52 * 2 ^ 1020)"
  "double_value 0x3FE8000000000000 = Finite (3 * 2 ^ 51 * 2 ^ 1021)"
  by (simp_all add: double_value_unfold)

text \<open>
  C5 as stated fails on a triple that mixes \<open>float\<close> with integers above \<open>2**53\<close>.  At
  \<open>can_form_triangle(2**53 + 3, 2.0, 2**53 + 5)\<close> the sides are flat, \<open>a + b = c\<close>, but
  both integers round to \<open>2.0 ** 53 + 4\<close> when they are added to \<open>2.0\<close>, so \<open>a + b\<close> and
  \<open>b + c\<close> are \<open>2.0 ** 53 + 6\<close>, above \<open>c\<close> and above \<open>a\<close>, and the call returns \<open>True\<close>.
\<close>

theorem flat_mixed_triple_accepted:
  "strictly_positive (PyInt (2 ^ 53 + 3))
   \<and> strictly_positive (PyFloat 0x4000000000000000)
   \<and> strictly_positive (PyInt (2 ^ 53 + 5))
   \<and> flat (NInt (2 ^ 53 + 3)) (NFloat 0x4000000000000000) (NInt (2 ^ 53 + 5))
   \<and> can_form_triangle (PyInt (2 ^ 53 + 3)) (PyFloat 0x4000000000000000) (PyInt (2 ^ 53 + 5)) =
       Inr True"
proof (intro conjI)
  show "strictly_positive (PyInt (2 ^ 53 + 3))" "strictly_positive (PyInt (2 ^ 53 + 5))"
    by (simp_all add: strictly_positive_def)
  show "strictly_positive (PyFloat 0x4000000000000000)"
    by (simp add: strictly_positive_def num_gt_def double_value_2)
  show "flat (NInt (2 ^ 53 + 3)) (NFloat 0x4000000000000000) (NInt (2 ^ 53 + 5))"
    by (simp add: flat_units double_value_2)
  show "can_form_triangle (PyInt (2 ^ 53 + 3)) (PyFloat 0x4000000000000000)
      (PyInt (2 ^ 53 + 5)) = Inr True"
    using int_to_double_ties_to_even(2) int_to_double_2_53_5
    by (simp add: can_form_triangle_unfold num_gt_def double_value_2 fadd_2_53_4_and_2
        double_value_twice_a)
qed

text \<open>
  C5, amended: for numeric, strictly positive arguments that are all of type \<open>int\<close> (or
  \<open>bool\<close>), or among which every \<open>int\<close> converts to \<open>float\<close> without rounding, the call
  returns \<open>False\<close> whenever one side's exact length is the exact sum of the other two.
\<close>

theorem flat_triple_rejected:
  assumes num: "as_num a = Some x" "as_num b = Some y" "as_num c = Some z"
    and pos: "strictly_positive a" "strictly_positive b" "strictly_positive c"
    and kinds: "same_arithmetic x y z"
    and flat: "flat x y z"
  shows "can_form_triangle a b c = Inr False"
proof -
  from flat obtain p q r where val:
      "num_value x = Finite p" "num_value y = Finite q" "num_value z = Finite r"
    and sum: "p + q = r \<or> p + r = q \<or> q + r = p"
    by (auto simp: flat_units)
  from num pos val have p: "0 < p" "0 < q" "0 < r"
    and ap: "all_positive x y z"
    by (simp_all add: strictly_positive_def all_positive_def num_gt_def)
  then have cft: "can_form_triangle a b c = triangle_inequality x y z"
    by (simp add: can_form_triangle_numeric [OF num])
  from kinds obtain r1 r2 r3 where
    r: "sum_gt x y z = Inr r1" "sum_gt x z y = Inr r2" "sum_gt y z x = Inr r3"
    using sum_gt_returns [of x y z] sum_gt_returns [of x z y] sum_gt_returns [of y z x]
    unfolding same_arithmetic_def by blast
  from sum have "\<not> r1 \<or> \<not> r2 \<or> \<not> r3"
  proof (elim disjE)
    assume "p + q = r"
    with kinds val p have "sum_gt x y z = Inr False"
      unfolding same_arithmetic_def by (intro exact_sum_not_greater [of x y z p q]) auto
    with r show ?thesis by simp
  next
    assume "p + r = q"
    with kinds val p have "sum_gt x z y = Inr False"
      unfolding same_arithmetic_def by (intro exact_sum_not_greater [of x z y p r]) auto
    with r show ?thesis by simp
  next
    assume "q + r = p"
    with kinds val p have "sum_gt y z x = Inr False"
      unfolding same_arithmetic_def by (intro exact_sum_not_greater [of y z x q r]) auto
    with r show ?thesis by simp
  qed
  then have "triangle_inequality x y z = Inr False"
    by (auto simp: triangle_inequality_def py_and_def r)
  with cft show ?thesis by simp
qed


theorem flat_triple_rejected_witness:
  "can_form_triangle (PyInt 1) (PyInt 2) (PyInt 3) = Inr False
   \<and> can_form_triangle (PyFloat 0x3FE0000000000000) (PyFloat 0x3FD0000000000000)
       (PyFloat 0x3FE8000000000000) = Inr False
   \<and> can_form_triangle (PyInt 1) (PyFloat 0x4000000000000000) (PyInt 3) = Inr False"
proof -
  have i3: "int_to_double 3 = Inr 0x4008000000000000"
    using round_finite_scaled [of 0 "3 * 2 ^ 51" 0 1023]
    by (simp add: int_to_double_def make_double_def round_half_even_def OVERFLOW_UNITS_def)
  have "can_form_triangle (PyInt 1) (PyInt 2) (PyInt 3) = Inr False"
    using flat_triple_rejected [of "PyInt 1" "NInt 1" "PyInt 2" "NInt 2" "PyInt 3" "NInt 3"]
    by (simp add: strictly_positive_def same_arithmetic_def flat_units)
  moreover have "can_form_triangle (PyFloat 0x3FE0000000000000) (PyFloat 0x3FD0000000000000)
       (PyFloat 0x3FE8000000000000) = Inr False"
    using flat_triple_rejected [of "PyFloat 0x3FE0000000000000" "NFloat 0x3FE0000000000000"
        "PyFloat 0x3FD0000000000000" "NFloat 0x3FD0000000000000"
        "PyFloat 0x3FE8000000000000" "NFloat 0x3FE8000000000000"]
    by (simp add: strictly_positive_def same_arithmetic_def converts_exactly_def flat_units
        num_gt_def double_value_tenths(6) double_value_quarters)
  moreover have "can_form_triangle (PyInt 1) (PyFloat 0x4000000000000000) (PyInt 3) = Inr False"
    using flat_triple_rejected [of "PyInt 1" "NInt 1" "PyFloat 0x4000000000000000"
        "NFloat 0x4000000000000000" "PyInt 3" "NInt 3"]
    by (simp add: strictly_positive_def same_arithmetic_def converts_exactly_def flat_units
        num_gt_def int_to_double_1 i3 double_value_1 double_value_2 double_value_3)
  ultimately show ?thesis by simp
qed

text \<open>
  With an integer too large for a double the flat triple \<open>(2**1024, 1.0, 2**1024 + 1)\<close>
  does not return at all: the first sum raises.
\<close>

lemma flat_triple_with_large_int_raises:
  "flat (NInt (2 ^ 1024)) (NFloat 0x3FF0000000000000) (NInt (2 ^ 1024 + 1))
   \<and> can_form_triangle (PyInt (2 ^ 1024)) (PyFloat 0x3FF0000000000000) (PyInt (2 ^ 1024 + 1)) =
       Inl (OverflowError ''int too large to convert to float'')"
proof
  show "flat (NInt (2 ^ 1024)) (NFloat 0x3FF0000000000000) (NInt (2 ^ 1024 + 1))"
    by (simp add: flat_units double_value_1)
  show "can_form_triangle (PyInt (2 ^ 1024)) (PyFloat 0x3FF0000000000000)
      (PyInt (2 ^ 1024 + 1)) = Inl (OverflowError ''int too large to convert to float'')"
    by (rule too_large_int_first [where z = "NInt (2 ^ 1024 + 1)"])
       (simp_all add: too_large_def OVERFLOW_UNITS_def one_positive)
qed

end
